theory Spec2Isabelle
  imports Complex_Main "HOL-Library.AList"
begin

section \<open>NotiSync notification classifier (services/ml/classifier.py)\<close>

text \<open>
  The development embeds the class \<open>NotificationClassifier\<close>: the keyword tables, the
  learned-pattern store, \<open>classify\<close>, \<open>learn_from_feedback\<close>, \<open>get_category_stats\<close> and
  \<open>reset_learned_patterns\<close>.

  Conventions of the embedding.
  \<^item> A Python \<open>str\<close> is a \<open>string\<close>: a list of 8-bit characters, read as the code points
    U+0000 to U+00FF. On this range \<open>str.lower\<close>, \<open>str.strip\<close>, the operator \<open>in\<close> and the
    character classes of \<open>re\<close> are closed, and they are modelled with the values Python gives
    them there. The arrow U+2192 that the learned-override reasoning contains lies outside
    the range; it is written as the three bytes of its UTF-8 form.
  \<^item> A Python \<open>float\<close> is a \<open>real\<close>: the arithmetic is exact. The scores are sums of
    3.0, 1.0, 2.0 and 1.5, which binary floating point adds exactly as well; the learned
    confidences grow in steps of 0.1 and 0.05, which floating point rounds, so a statement
    about a stored confidence is a statement about its exact value.
  \<^item> A \<open>dict\<close> is an association list in insertion order; \<open>map_of\<close> reads a key and
    \<open>AList.update\<close> writes one (in place when the key is there, at the end otherwise), which
    is the order in which Python iterates.
  \<^item> The Redis client is outside the embedding. What \<open>_load_learned_patterns\<close> reads from it
    is a parameter of the constructor; \<open>_save_learned_patterns\<close> and the deletions of
    \<open>reset_learned_patterns\<close> write to Redis only and swallow every failure, so they leave the
    object as it is.
\<close>

subsection \<open>Strings\<close>

definition in_range :: "char \<Rightarrow> nat \<Rightarrow> nat \<Rightarrow> bool" where
  "in_range c lo hi = (lo \<le> of_char c \<and> of_char c \<le> (hi::nat))"

text \<open>\<open>str.lower\<close>, one character at a time: A-Z, and U+00C0-U+00DE without U+00D7.\<close>

definition lower_char :: "char \<Rightarrow> char" where
  "lower_char c =
     (if in_range c 65 90 \<or> in_range c 192 214 \<or> in_range c 216 222
      then char_of (of_char c + (32::nat)) else c)"

definition lower :: "string \<Rightarrow> string" where
  "lower s = map lower_char s"

text \<open>\<open>str.isspace\<close>: U+0009-U+000D, U+001C-U+0020, U+0085, U+00A0.\<close>

definition isspace :: "char \<Rightarrow> bool" where
  "isspace c = (in_range c 9 13 \<or> in_range c 28 32 \<or> of_char c = (133::nat) \<or> of_char c = (160::nat))"

definition strip :: "string \<Rightarrow> string" where
  "strip s = rev (dropWhile isspace (rev (dropWhile isspace s)))"

fun startswith :: "string \<Rightarrow> string \<Rightarrow> bool" where
  "startswith s [] = True"
| "startswith [] (p # ps) = False"
| "startswith (c # cs) (p # ps) = (c = p \<and> startswith cs ps)"

text \<open>\<open>p in s\<close> on strings: \<open>p\<close> occurs in \<open>s\<close> as a contiguous substring.\<close>

fun str_in :: "string \<Rightarrow> string \<Rightarrow> bool" where
  "str_in p [] = (p = [])"
| "str_in p (c # cs) = (startswith (c # cs) p \<or> str_in p cs)"

fun join :: "string \<Rightarrow> string list \<Rightarrow> string" where
  "join sep [] = []"
| "join sep [x] = x"
| "join sep (x # y # ys) = x @ sep @ join sep (y # ys)"

text \<open>
  \<open>m.split(':', 1)[1]\<close>: what follows the first colon. The source applies it only to
  entries that start with a tag and its colon, where index 1 exists.
\<close>

definition split_colon_1 :: "string \<Rightarrow> string" where
  "split_colon_1 m = tl (dropWhile (\<lambda>c. c \<noteq> CHR '':'') m)"

subsection \<open>Regular expressions of the table\<close>

text \<open>
  The patterns of the table use literals, the escapes \<open>\d\<close>, \<open>\s\<close>, \<open>\$\<close>, \<open>\.\<close> and the
  postfix operators \<open>+\<close>, \<open>*\<close> and \<open>{2}\<close> on a single character or class. \<open>re_compile\<close>
  reads this fragment; \<open>match_here\<close> is the backtracking matcher at a fixed position and
  \<open>re_search\<close> tries every start position, under \<open>re.IGNORECASE\<close>.
\<close>

datatype cls = Chr char | Digit | Space

datatype quant = One | OneOrMore | ZeroOrMore

type_synonym regex = "(cls \<times> quant) list"

definition backslash :: char where
  "backslash = CHR 0x5C"

fun cls_matches :: "cls \<Rightarrow> char \<Rightarrow> bool" where
  "cls_matches (Chr p) c = (lower_char c = lower_char p)"
| "cls_matches Digit c = in_range c 48 57"
| "cls_matches Space c = isspace c"

definition re_quant :: "cls \<Rightarrow> string \<Rightarrow> regex \<times> string" where
  "re_quant k r =
     (if startswith r ''+'' then ([(k, OneOrMore)], drop 1 r)
      else if startswith r ''*'' then ([(k, ZeroOrMore)], drop 1 r)
      else if startswith r ''{2}'' then ([(k, One), (k, One)], drop 3 r)
      else ([(k, One)], r))"

definition re_atom :: "string \<Rightarrow> cls \<times> string" where
  "re_atom s =
     (case s of
        [] \<Rightarrow> (Chr CHR '' '', [])
      | c # r \<Rightarrow>
          (if c = backslash then
             (case r of
                [] \<Rightarrow> (Chr c, [])
              | e # r' \<Rightarrow>
                  (if e = CHR ''d'' then (Digit, r')
                   else if e = CHR ''s'' then (Space, r')
                   else (Chr e, r')))
           else (Chr c, r)))"

fun re_compile_fuel :: "nat \<Rightarrow> string \<Rightarrow> regex" where
  "re_compile_fuel 0 s = []"
| "re_compile_fuel (Suc n) s =
     (if s = [] then []
      else (let (k, r) = re_atom s; (items, r') = re_quant k r
            in items @ re_compile_fuel n r'))"

definition re_compile :: "string \<Rightarrow> regex" where
  "re_compile s = re_compile_fuel (length s) s"

fun match_here :: "regex \<Rightarrow> string \<Rightarrow> bool" where
  "match_here [] s = True"
| "match_here ((k, One) # r) [] = False"
| "match_here ((k, One) # r) (c # cs) = (cls_matches k c \<and> match_here r cs)"
| "match_here ((k, OneOrMore) # r) [] = False"
| "match_here ((k, OneOrMore) # r) (c # cs) =
     (cls_matches k c \<and> match_here ((k, ZeroOrMore) # r) cs)"
| "match_here ((k, ZeroOrMore) # r) [] = match_here r []"
| "match_here ((k, ZeroOrMore) # r) (c # cs) =
     ((cls_matches k c \<and> match_here ((k, ZeroOrMore) # r) cs) \<or> match_here r (c # cs))"

fun re_search_compiled :: "regex \<Rightarrow> string \<Rightarrow> bool" where
  "re_search_compiled r [] = match_here r []"
| "re_search_compiled r (c # cs) = (match_here r (c # cs) \<or> re_search_compiled r cs)"

definition re_search :: "string \<Rightarrow> string \<Rightarrow> bool" where
  "re_search pattern s = re_search_compiled (re_compile pattern) s"

text \<open>
  \<open>re.findall(r'\b\w{3,}\b', content)\<close>. \<open>\w\<close> is an alphanumeric character or the
  underscore. A match starts at a word boundary, the greedy \<open>\w{3,}\<close> takes the whole run
  of word characters (a shorter take ends inside the run, where \<open>\b\<close> fails), and the scan
  goes on after the run; so the scanner keeps the run it is in and emits it at its end
  when it has three characters or more.
\<close>

definition is_word :: "char \<Rightarrow> bool" where
  "is_word c =
     (in_range c 48 57 \<or> in_range c 65 90 \<or> in_range c 97 122 \<or> of_char c = (95::nat)
      \<or> of_char c \<in> {170, 178, 179, 181, 185, 186, 188, 189, 190::nat}
      \<or> in_range c 192 214 \<or> in_range c 216 246 \<or> in_range c 248 255)"

fun findall_scan :: "string \<Rightarrow> string \<Rightarrow> string list" where
  "findall_scan run [] = (if 3 \<le> length run then [rev run] else [])"
| "findall_scan run (c # cs) =
     (if is_word c then findall_scan (c # run) cs
      else (if 3 \<le> length run then [rev run] else []) @ findall_scan [] cs)"

definition findall_words :: "string \<Rightarrow> string list" where
  "findall_words s = findall_scan [] s"

subsection \<open>Data model\<close>

datatype notification_category = WORK | PERSONAL | JUNK

text \<open>\<open>category.value\<close> and \<open>category.value.lower()\<close>.\<close>

fun category_value :: "notification_category \<Rightarrow> string" where
  "category_value WORK = ''Work''"
| "category_value PERSONAL = ''Personal''"
| "category_value JUNK = ''Junk''"

record classification_result =
  category :: notification_category
  confidence :: real
  reasoning :: string
  matched_keywords :: "string list"

text \<open>The timestamp is a \<open>datetime\<close>; the classifier only carries it.\<close>

record user_feedback =
  app_name :: string
  title :: string
  body :: string
  predicted_category :: notification_category
  actual_category :: notification_category
  timestamp :: int

text \<open>
  One keyword dictionary. The source reads each key with \<open>keywords.get(key, [])\<close>, so
  a key that a dictionary lacks is the empty list.
\<close>

record keyword_table =
  kw_apps :: "string list"
  kw_content :: "string list"
  kw_patterns :: "string list"
  kw_domains :: "string list"

text \<open>
  The learned patterns of one category: a dictionary that may hold the keys
  \<open>'apps'\<close> and \<open>'content'\<close>; the source reads them with \<open>get\<close> and \<open>setdefault\<close>, so either
  may be absent.
\<close>

type_synonym conf_dict = "(string \<times> real) list"

record category_patterns =
  lp_apps :: "conf_dict option"
  lp_content :: "conf_dict option"

type_synonym learned_store = "(notification_category \<times> category_patterns) list"

record classifier =
  work_keywords :: keyword_table
  personal_keywords :: keyword_table
  junk_keywords :: keyword_table
  learned_patterns :: learned_store

subsection \<open>The keyword tables (\<open>_initialize_keywords\<close>)\<close>

definition work_keywords_init :: keyword_table where
  "work_keywords_init = \<lparr>
     kw_apps = [
       ''slack'', ''teams'', ''microsoft teams'', ''outlook'', ''gmail'', ''email'',
       ''zoom'', ''webex'', ''skype'', ''calendar'', ''jira'', ''confluence'',
       ''trello'', ''asana'', ''notion'', ''monday'', ''salesforce'', ''hubspot'',
       ''office'', ''excel'', ''word'', ''powerpoint'', ''sharepoint'',
       ''linkedin'', ''workday'', ''bamboohr'', ''zendesk'', ''freshdesk''],
     kw_content = [
       ''meeting'', ''conference'', ''deadline'', ''project'', ''task'',
       ''client'', ''customer'', ''report'', ''presentation'', ''document'',
       ''schedule'', ''appointment'', ''colleague'', ''team'', ''manager'',
       ''office'', ''work'', ''business'', ''professional'', ''corporate'',
       ''invoice'', ''contract'', ''proposal'', ''budget'', ''quarterly'',
       ''standup'', ''scrum'', ''sprint'', ''deployment'', ''release'',
       ''urgent'', ''asap'', ''priority'', ''escalation'', ''incident''],
     kw_patterns = [],
     kw_domains = [
       ''company.com'', ''corp.com'', ''enterprise.com'', ''business.com'',
       ''work.com'', ''office.com'', ''team.com'']\<rparr>"

definition personal_keywords_init :: keyword_table where
  "personal_keywords_init = \<lparr>
     kw_apps = [
       ''whatsapp'', ''telegram'', ''signal'', ''messenger'', ''imessage'',
       ''instagram'', ''facebook'', ''twitter'', ''snapchat'', ''tiktok'',
       ''youtube'', ''spotify'', ''netflix'', ''amazon'', ''uber'', ''lyft'',
       ''maps'', ''weather'', ''news'', ''reddit'', ''discord'', ''twitch'',
       ''banking'', ''bank'', ''paypal'', ''venmo'', ''cashapp'', ''zelle'',
       ''fitness'', ''health'', ''calendar'', ''photos'', ''camera''],
     kw_content = [
       ''friend'', ''family'', ''mom'', ''dad'', ''brother'', ''sister'',
       ''birthday'', ''anniversary'', ''vacation'', ''holiday'', ''weekend'',
       ''dinner'', ''lunch'', ''coffee'', ''movie'', ''game'', ''party'',
       ''personal'', ''private'', ''home'', ''house'', ''apartment'',
       ''love'', ''miss'', ''care'', ''thanks'', ''congratulations'',
       ''reminder'', ''appointment'', ''doctor'', ''dentist'', ''gym'',
       ''workout'', ''exercise'', ''recipe'', ''cooking'', ''shopping''],
     kw_patterns = [],
     kw_domains = []\<rparr>"

definition junk_keywords_init :: keyword_table where
  "junk_keywords_init = \<lparr>
     kw_apps = [
       ''marketing'', ''promo'', ''deals'', ''offers'', ''shopping'',
       ''retail'', ''store'', ''mall'', ''advertisement'', ''ad'',
       ''spam'', ''newsletter'', ''subscription'', ''promotion''],
     kw_content = [
       ''sale'', ''discount'', ''offer'', ''deal'', ''promotion'', ''coupon'',
       ''limited time'', ''buy now'', ''shop'', ''free shipping'', ''% off'',
       ''unsubscribe'', ''marketing'', ''newsletter'', ''advertisement'',
       ''click here'', ''act now'', ''hurry'', ''expires'', ''last chance'',
       ''winner'', ''congratulations'', ''prize'', ''lottery'', ''jackpot'',
       ''free'', ''bonus'', ''reward'', ''cashback'', ''refund'',
       ''viagra'', ''casino'', ''gambling'', ''loan'', ''credit'',
       ''weight loss'', ''diet'', ''supplement'', ''miracle''],
     kw_patterns = [
       backslash # ''d+%'' @ backslash # ''s*off'',
       ''free'' @ backslash # ''s+shipping'',
       ''buy'' @ backslash # ''s+'' @ backslash # ''d+'' @ backslash # ''s+get''
         @ backslash # ''s+'' @ backslash # ''d+'',
       backslash # ''$'' @ backslash # ''d+'' @ backslash # ''.'' @ backslash # ''d{2}'',
       ''limited'' @ backslash # ''s+time'',
       ''act'' @ backslash # ''s+now'',
       ''click'' @ backslash # ''s+here''],
     kw_domains = []\<rparr>"

definition initialize_keywords :: "classifier \<Rightarrow> classifier" where
  "initialize_keywords c =
     c\<lparr>work_keywords := work_keywords_init,
       personal_keywords := personal_keywords_init,
       junk_keywords := junk_keywords_init\<rparr>"

subsection \<open>The learned-pattern store\<close>

definition empty_patterns :: category_patterns where
  "empty_patterns = \<lparr>lp_apps = Some [], lp_content = Some []\<rparr>"

definition empty_store :: learned_store where
  "empty_store = [(WORK, empty_patterns), (PERSONAL, empty_patterns), (JUNK, empty_patterns)]"

text \<open>
  \<open>_load_learned_patterns\<close>. \<open>loaded cat\<close> is what \<open>json.loads\<close> made of the entry that Redis
  holds for \<open>cat\<close>; it is \<open>None\<close> when there is no client, when the entry is missing or
  empty, and for every category from the first failing read on (the loop is left at the
  first exception).
\<close>

definition load_learned_patterns ::
  "(notification_category \<Rightarrow> category_patterns option) \<Rightarrow> classifier \<Rightarrow> classifier" where
  "load_learned_patterns loaded c =
     c\<lparr>learned_patterns :=
         foldl (\<lambda>lp cat. case loaded cat of None \<Rightarrow> lp | Some p \<Rightarrow> AList.update cat p lp)
           empty_store [WORK, PERSONAL, JUNK]\<rparr>"

text \<open>\<open>__init__\<close>: the keyword tables, then the learned patterns.\<close>

definition new_classifier ::
  "(notification_category \<Rightarrow> category_patterns option) \<Rightarrow> classifier" where
  "new_classifier loaded =
     load_learned_patterns loaded
       (initialize_keywords
          \<lparr>work_keywords = \<lparr>kw_apps = [], kw_content = [], kw_patterns = [], kw_domains = []\<rparr>,
           personal_keywords = \<lparr>kw_apps = [], kw_content = [], kw_patterns = [], kw_domains = []\<rparr>,
           junk_keywords = \<lparr>kw_apps = [], kw_content = [], kw_patterns = [], kw_domains = []\<rparr>,
           learned_patterns = []\<rparr>)"

text \<open>\<open>patterns.get(key, {})\<close>.\<close>

definition get_dict :: "conf_dict option \<Rightarrow> conf_dict" where
  "get_dict d = (case d of None \<Rightarrow> [] | Some m \<Rightarrow> m)"

text \<open>\<open>d.get(key, default)\<close>.\<close>

definition get_default :: "conf_dict \<Rightarrow> string \<Rightarrow> real \<Rightarrow> real" where
  "get_default d k dflt = (case map_of d k of None \<Rightarrow> dflt | Some v \<Rightarrow> v)"

subsection \<open>\<open>_check_learned_patterns\<close>\<close>

text \<open>U+2192 in UTF-8, between two spaces.\<close>

definition arrow :: string where
  "arrow = [CHR '' '', CHR 0xE2, CHR 0x86, CHR 0x92, CHR '' '']"

text \<open>The inner loop over the \<open>content\<close> dictionary of one category.\<close>

fun check_content ::
  "notification_category \<Rightarrow> string \<Rightarrow> conf_dict \<Rightarrow> classification_result option" where
  "check_content cat content [] = None"
| "check_content cat content ((pattern, pattern_confidence) # rest) =
     (if str_in pattern content \<and> pattern_confidence > 0.7
      then Some \<lparr>category = cat, confidence = pattern_confidence,
                 reasoning = ''Learned from user feedback: '' @ [CHR 0x27] @ pattern @ [CHR 0x27]
                             @ arrow @ category_value cat,
                 matched_keywords = [pattern]\<rparr>
      else check_content cat content rest)"

text \<open>The test of the \<open>apps\<close> dictionary of one category.\<close>

definition check_app ::
  "notification_category \<Rightarrow> string \<Rightarrow> conf_dict \<Rightarrow> classification_result option" where
  "check_app cat app apps =
     (case map_of apps app of
        None \<Rightarrow> None
      | Some app_confidence \<Rightarrow>
          (if app_confidence > 0.7
           then Some \<lparr>category = cat, confidence = app_confidence,
                      reasoning = ''Learned from user feedback: '' @ app
                                  @ arrow @ category_value cat,
                      matched_keywords = [app]\<rparr>
           else None))"

fun check_learned_patterns ::
  "learned_store \<Rightarrow> string \<Rightarrow> string \<Rightarrow> classification_result option" where
  "check_learned_patterns [] app content = None"
| "check_learned_patterns ((cat, patterns) # rest) app content =
     (case check_app cat app (get_dict (lp_apps patterns)) of
        Some r \<Rightarrow> Some r
      | None \<Rightarrow>
          (case check_content cat content (get_dict (lp_content patterns)) of
             Some r \<Rightarrow> Some r
           | None \<Rightarrow> check_learned_patterns rest app content))"

subsection \<open>\<open>_calculate_category_score\<close>\<close>

text \<open>
  One of the four loops: every entry \<open>x\<close> of the list that passes the test adds the
  weight to the score and appends the tagged entry to the matches.
\<close>

definition score_loop ::
  "(string \<Rightarrow> bool) \<Rightarrow> real \<Rightarrow> string \<Rightarrow> string list \<Rightarrow> real \<times> string list
     \<Rightarrow> real \<times> string list" where
  "score_loop test weight tag xs acc =
     foldl (\<lambda>(score, matches) x.
              if test x then (score + weight, matches @ [tag @ x]) else (score, matches))
       acc xs"

definition calculate_category_score ::
  "string \<Rightarrow> string \<Rightarrow> keyword_table \<Rightarrow> real \<times> string list" where
  "calculate_category_score app content kws =
     score_loop (\<lambda>domain. str_in domain content) 1.5 ''domain:'' (kw_domains kws)
       (score_loop (\<lambda>pattern. re_search pattern content) 2.0 ''pattern:'' (kw_patterns kws)
          (score_loop (\<lambda>keyword. str_in keyword content) 1.0 ''keyword:'' (kw_content kws)
             (score_loop (\<lambda>app'. str_in app' app) 3.0 ''app:'' (kw_apps kws)
                (0.0, []))))"

subsection \<open>\<open>_generate_reasoning\<close>\<close>

definition generate_reasoning ::
  "notification_category \<Rightarrow> string list \<Rightarrow> string \<Rightarrow> string" where
  "generate_reasoning cat matches app =
     (if matches = [] then
        ''Classified as '' @ category_value cat @ '' based on general patterns''
      else
        (let app_matches = filter (\<lambda>m. startswith m ''app:'') matches;
             keyword_matches = filter (\<lambda>m. startswith m ''keyword:'') matches;
             pattern_matches = filter (\<lambda>m. startswith m ''pattern:'') matches;
             reasons =
               (if app_matches \<noteq> [] then
                  [''app '' @ [CHR 0x27] @ app @ [CHR 0x27] @ '' matches ''
                     @ lower (category_value cat) @ '' apps'']
                else [])
               @ (if keyword_matches \<noteq> [] then
                    [''contains '' @ lower (category_value cat) @ '' keywords: ''
                       @ join '', '' (map split_colon_1 (take 3 keyword_matches))]
                  else [])
               @ (if pattern_matches \<noteq> [] then
                    [''matches '' @ lower (category_value cat) @ '' patterns'']
                  else [])
         in ''Classified as '' @ category_value cat @ '': '' @ join ''; '' reasons))"

subsection \<open>\<open>classify\<close>\<close>

text \<open>
  \<open>scores.sort(key=lambda x: x[1], reverse=True)\<close>: Python's sort is stable, also with
  \<open>reverse=True\<close>, so entries of equal score keep the order Work, Personal, Junk. The stable
  insertion sort \<open>sort_key\<close> on the negated score does the same.
\<close>

definition sort_scores ::
  "(notification_category \<times> real \<times> string list) list
     \<Rightarrow> (notification_category \<times> real \<times> string list) list" where
  "sort_scores scores = sort_key (\<lambda>x. - fst (snd x)) scores"

text \<open>
  The method returns its result; the object it leaves behind is the second component.
  \<open>a\<close>, \<open>t\<close> and \<open>b\<close> are the arguments \<open>app_name\<close>, \<open>title\<close> and \<open>body\<close>.
\<close>

definition classify ::
  "classifier \<Rightarrow> string \<Rightarrow> string \<Rightarrow> string \<Rightarrow> classification_result \<times> classifier" where
  "classify c a t b =
     (let app = strip (lower a);
          content = strip (lower (t @ '' '' @ b))
      in case check_learned_patterns (learned_patterns c) app content of
           Some learned_result \<Rightarrow> (learned_result, c)
         | None \<Rightarrow>
            (let (work_score, work_matches) =
                   calculate_category_score app content (work_keywords c);
                 (personal_score, personal_matches) =
                   calculate_category_score app content (personal_keywords c);
                 (junk_score, junk_matches) =
                   calculate_category_score app content (junk_keywords c);
                 scores = sort_scores
                   [(WORK, work_score, work_matches),
                    (PERSONAL, personal_score, personal_matches),
                    (JUNK, junk_score, junk_matches)];
                 (best_category, best_score, best_matches) = scores ! 0;
                 conf =
                   (if length scores > 1 then
                      (let second_best_score = fst (snd (scores ! 1))
                       in min 0.95 (max 0.5 ((best_score - second_best_score) / max best_score 1.0)))
                    else 0.8)
             in if best_score = 0 then
                  (\<lparr>category = PERSONAL, confidence = 0.5,
                    reasoning = ''No specific patterns matched, defaulting to Personal'',
                    matched_keywords = []\<rparr>, c)
                else
                  (\<lparr>category = best_category, confidence = conf,
                    reasoning = generate_reasoning best_category best_matches app,
                    matched_keywords = best_matches\<rparr>, c)))"

subsection \<open>\<open>learn_from_feedback\<close>\<close>

text \<open>
  \<open>apps = patterns.setdefault('apps', {})\<close>, then
  \<open>apps[app_name] = min(0.95, apps.get(app_name, 0.5) + 0.1)\<close>.
\<close>

definition learn_app :: "string \<Rightarrow> category_patterns \<Rightarrow> category_patterns" where
  "learn_app app patterns =
     (let apps = get_dict (lp_apps patterns);
          current_confidence = get_default apps app 0.5
      in patterns\<lparr>lp_apps := Some (AList.update app (min 0.95 (current_confidence + 0.1)) apps)\<rparr>)"

text \<open>
  \<open>content_patterns = patterns.setdefault('content', {})\<close>, then
  \<open>content_patterns[word] = min(0.9, content_patterns.get(word, 0.5) + 0.05)\<close>.
\<close>

definition learn_word :: "string \<Rightarrow> category_patterns \<Rightarrow> category_patterns" where
  "learn_word word patterns =
     (let content_patterns = get_dict (lp_content patterns);
          current_confidence = get_default content_patterns word 0.5
      in patterns\<lparr>lp_content :=
           Some (AList.update word (min 0.9 (current_confidence + 0.05)) content_patterns)\<rparr>)"

text \<open>
  \<open>self.learned_patterns[correct_category]\<close> is the dictionary object of the category,
  changed in place: \<open>AList.map_entry\<close> rewrites the entry where it stands. The key is there,
  the guard before puts it in when it is missing.
\<close>

definition learn_from_feedback :: "classifier \<Rightarrow> user_feedback \<Rightarrow> classifier" where
  "learn_from_feedback c feedback =
     (let app = strip (lower (app_name feedback));
          content = strip (lower (title feedback @ '' '' @ body feedback));
          correct_category = actual_category feedback;
          lp0 = learned_patterns c;
          lp1 = (if map_of lp0 correct_category = None
                 then AList.update correct_category empty_patterns lp0 else lp0);
          lp2 = (if app \<noteq> [] then AList.map_entry correct_category (learn_app app) lp1
                 else lp1);
          content_words = findall_words content;
          lp3 = foldl (\<lambda>lp word.
                         if length word > 3
                         then AList.map_entry correct_category (learn_word word) lp
                         else lp)
                  lp2 (take 5 content_words)
      in c\<lparr>learned_patterns := lp3\<rparr>)"

subsection \<open>\<open>get_category_stats\<close> and \<open>reset_learned_patterns\<close>\<close>

record category_stats =
  learned_apps :: nat
  learned_content_patterns :: nat
  top_apps :: "(string \<times> real) list"
  top_content_patterns :: "(string \<times> real) list"

text \<open>\<open>sorted(d.items(), key=lambda x: x[1], reverse=True)[:n]\<close>.\<close>

definition top_items :: "nat \<Rightarrow> conf_dict \<Rightarrow> (string \<times> real) list" where
  "top_items n d = take n (sort_key (\<lambda>x. - snd x) d)"

definition get_category_stats ::
  "classifier \<Rightarrow> (string \<times> category_stats) list \<times> classifier" where
  "get_category_stats c =
     (foldl (\<lambda>stats (cat, patterns).
               (let apps_dict = get_dict (lp_apps patterns);
                    content_dict = get_dict (lp_content patterns)
                in AList.update (category_value cat)
                     \<lparr>learned_apps = length apps_dict,
                      learned_content_patterns = length content_dict,
                      top_apps = top_items 5 apps_dict,
                      top_content_patterns = top_items 10 content_dict\<rparr> stats))
        [] (learned_patterns c), c)"

definition reset_learned_patterns :: "classifier \<Rightarrow> classifier" where
  "reset_learned_patterns c = c\<lparr>learned_patterns := empty_store\<rparr>"

section \<open>Notions of the specification\<close>

subsection \<open>Sequences of operations\<close>

text \<open>A classifier that finds nothing in Redis (or has no client).\<close>

definition no_data :: "notification_category \<Rightarrow> category_patterns option" where
  "no_data cat = None"

text \<open>The public operations of the class, and the object each leaves behind.\<close>

datatype operation =
    Classify string string string
  | LearnFromFeedback user_feedback
  | GetCategoryStats
  | ResetLearnedPatterns

fun apply_operation :: "classifier \<Rightarrow> operation \<Rightarrow> classifier" where
  "apply_operation c (Classify a t b) = snd (classify c a t b)"
| "apply_operation c (LearnFromFeedback feedback) = learn_from_feedback c feedback"
| "apply_operation c GetCategoryStats = snd (get_category_stats c)"
| "apply_operation c ResetLearnedPatterns = reset_learned_patterns c"

definition run_operations :: "classifier \<Rightarrow> operation list \<Rightarrow> classifier" where
  "run_operations c ops = foldl apply_operation c ops"

text \<open>The keyword tables are the ones the constructor installs.\<close>

definition keywords_initialized :: "classifier \<Rightarrow> bool" where
  "keywords_initialized c =
     (work_keywords c = work_keywords_init \<and>
      personal_keywords c = personal_keywords_init \<and>
      junk_keywords c = junk_keywords_init)"

subsection \<open>The invariant of the learned-pattern store\<close>

definition dict_bounded :: "real \<Rightarrow> conf_dict \<Rightarrow> bool" where
  "dict_bounded hi d = (\<forall>(k, v) \<in> set d. 0 \<le> v \<and> v \<le> hi)"

text \<open>Both dictionaries are present; app confidences are at most 0.95, content ones 0.90.\<close>

definition patterns_ok :: "category_patterns \<Rightarrow> bool" where
  "patterns_ok p =
     ((case lp_apps p of None \<Rightarrow> False | Some d \<Rightarrow> dict_bounded 0.95 d) \<and>
      (case lp_content p of None \<Rightarrow> False | Some d \<Rightarrow> dict_bounded 0.9 d))"

definition store_invariant :: "learned_store \<Rightarrow> bool" where
  "store_invariant lp = (\<forall>(cat, p) \<in> set lp. patterns_ok p)"

text \<open>What the constructor reads from Redis was written from a store that had the invariant.\<close>

definition loaded_ok :: "(notification_category \<Rightarrow> category_patterns option) \<Rightarrow> bool" where
  "loaded_ok loaded =
     (\<forall>cat \<in> {WORK, PERSONAL, JUNK}.
        case loaded cat of None \<Rightarrow> True | Some p \<Rightarrow> patterns_ok p)"

subsection \<open>Qualifying hits of one category\<close>

text \<open>
  A category has a qualifying hit for an app name and a content when its \<open>apps\<close>
  dictionary holds the app name above 0.7, or its \<open>content\<close> dictionary holds, above 0.7,
  a key that occurs in the content.
\<close>

definition has_hit :: "category_patterns \<Rightarrow> string \<Rightarrow> string \<Rightarrow> bool" where
  "has_hit p app content =
     ((case map_of (get_dict (lp_apps p)) app of None \<Rightarrow> False | Some v \<Rightarrow> v > 0.7) \<or>
      list_ex (\<lambda>(k, v). str_in k content \<and> v > 0.7) (get_dict (lp_content p)))"

subsection \<open>Best and second-best score\<close>

definition best_of :: "real \<Rightarrow> real \<Rightarrow> real \<Rightarrow> real" where
  "best_of w p j = max w (max p j)"

text \<open>The second largest of three numbers (the largest again when it occurs twice).\<close>

definition second_of :: "real \<Rightarrow> real \<Rightarrow> real \<Rightarrow> real" where
  "second_of w p j = max (min w p) (min (max w p) j)"

subsection \<open>Content tokens\<close>

text \<open>
  The word-character runs of a string: the maximal blocks of consecutive word characters,
  from left to right.
\<close>

function word_runs :: "string \<Rightarrow> string list" where
  "word_runs s =
     (if dropWhile (\<lambda>c. \<not> is_word c) s = [] then []
      else takeWhile is_word (dropWhile (\<lambda>c. \<not> is_word c) s)
             # word_runs (dropWhile is_word (dropWhile (\<lambda>c. \<not> is_word c) s)))"
  by pat_completeness auto
termination
proof (relation "measure length")
  show "wf (measure length)" by simp
next
  fix s :: string
  let ?r = "dropWhile (\<lambda>c. \<not> is_word c) s"
  assume ne: "?r \<noteq> []"
  then have "is_word (hd ?r)"
    using hd_dropWhile [of "\<lambda>c. \<not> is_word c" s] by simp
  with ne have "length (dropWhile is_word ?r) < length ?r"
    by (cases ?r) (auto simp: le_imp_less_Suc length_dropWhile_le)
  moreover have "length ?r \<le> length s"
    by (rule length_dropWhile_le)
  ultimately show "(dropWhile is_word ?r, s) \<in> measure length"
    by simp
qed

text \<open>The content tokens: the runs of length at least 3.\<close>

definition content_tokens :: "string \<Rightarrow> string list" where
  "content_tokens s = filter (\<lambda>w. 3 \<le> length w) (word_runs s)"

text \<open>One write of the content track: \<open>min(0.90, previous-or-0.5 + 0.05)\<close>.\<close>

definition bump_content :: "conf_dict \<Rightarrow> string \<Rightarrow> conf_dict" where
  "bump_content d w = AList.update w (min 0.9 (get_default d w 0.5 + 0.05)) d"

subsection \<open>Upper-casing\<close>

text \<open>
  \<open>str.upper\<close> on the modelled range, as the code points of the result: a-z and
  U+00E0-U+00FE without U+00F7 move down by 32, U+00DF (sharp s) becomes the two letters
  \<open>SS\<close>, U+00B5 becomes U+039C and U+00FF becomes U+0178; every other character stays.
  The last two results lie beyond U+00FF, so the upper-case form of a string is a list of
  code points, and \<open>code_points\<close> gives the code points of a string of the model.
\<close>

definition upper_char :: "char \<Rightarrow> nat list" where
  "upper_char c =
     (if in_range c 97 122 \<or> in_range c 224 246 \<or> in_range c 248 254
      then [of_char c - 32]
      else if of_char c = (223::nat) then [83, 83]
      else if of_char c = (181::nat) then [924]
      else if of_char c = (255::nat) then [376]
      else [of_char c])"

definition upper :: "string \<Rightarrow> nat list" where
  "upper s = concat (map upper_char s)"

definition code_points :: "string \<Rightarrow> nat list" where
  "code_points s = map of_char s"

definition sharp_s :: char where
  "sharp_s = CHR 0xDF"

subsection \<open>Example inputs\<close>

definition feedback_testapp :: user_feedback where
  "feedback_testapp =
     \<lparr>app_name = ''TestApp'', title = ''Test'', body = [],
      predicted_category = PERSONAL, actual_category = WORK, timestamp = 0\<rparr>"

text \<open>
  The same app reported three times as Work and then three times as Personal, and an
  app reported three times as Personal only.
\<close>

definition feedback_foo :: "notification_category \<Rightarrow> user_feedback" where
  "feedback_foo cat =
     \<lparr>app_name = ''Foo'', title = [], body = [],
      predicted_category = JUNK, actual_category = cat, timestamp = 0\<rparr>"

definition relearned_classifier :: classifier where
  "relearned_classifier =
     run_operations (new_classifier no_data)
       [LearnFromFeedback (feedback_foo WORK), LearnFromFeedback (feedback_foo WORK),
        LearnFromFeedback (feedback_foo WORK), LearnFromFeedback (feedback_foo PERSONAL),
        LearnFromFeedback (feedback_foo PERSONAL), LearnFromFeedback (feedback_foo PERSONAL)]"

definition personal_foo_classifier :: classifier where
  "personal_foo_classifier =
     run_operations (new_classifier no_data)
       [LearnFromFeedback (feedback_foo PERSONAL), LearnFromFeedback (feedback_foo PERSONAL),
        LearnFromFeedback (feedback_foo PERSONAL)]"

text \<open>A feedback whose text has seven tokens, one of them of length 3.\<close>

definition feedback_tokens :: user_feedback where
  "feedback_tokens =
     \<lparr>app_name = '' TestApp'', title = ''The special keyword'',
      body = ''is a unique-pattern here and now'',
      predicted_category = PERSONAL, actual_category = WORK, timestamp = 0\<rparr>"

section \<open>Properties\<close>

subsection \<open>Read-only operations\<close>

lemma classify_state: "snd (classify c a t b) = c"
  by (simp add: classify_def Let_def split: option.split prod.split)

lemma get_category_stats_state: "snd (get_category_stats c) = c"
  by (simp add: get_category_stats_def)

subsection \<open>Association lists\<close>

lemma set_update_subset: "set (AList.update k v al) \<subseteq> insert (k, v) (set al)"
  by (induction al) auto

lemma set_map_entry_subset:
  "set (AList.map_entry k f al) \<subseteq> set al \<union> {(k, f v) | v. (k, v) \<in> set al}"
  by (induction al) auto

lemma dict_bounded_update:
  "dict_bounded hi d \<Longrightarrow> 0 \<le> v \<Longrightarrow> v \<le> hi \<Longrightarrow> dict_bounded hi (AList.update k v d)"
  using set_update_subset [of k v d] by (auto simp: dict_bounded_def)

lemma get_default_nonneg:
  "dict_bounded hi d \<Longrightarrow> 0 \<le> dflt \<Longrightarrow> 0 \<le> get_default d k dflt"
  by (auto simp: get_default_def dict_bounded_def split: option.split dest: map_of_SomeD)

subsection \<open>The invariant\<close>

lemma patterns_ok_empty: "patterns_ok empty_patterns"
  by (simp add: patterns_ok_def empty_patterns_def dict_bounded_def)

lemma store_invariant_empty: "store_invariant empty_store"
  by (simp add: store_invariant_def empty_store_def patterns_ok_empty)

lemma patterns_ok_learn_app: "patterns_ok p \<Longrightarrow> patterns_ok (learn_app app p)"
proof -
  assume ok: "patterns_ok p"
  then obtain d where d: "lp_apps p = Some d" "dict_bounded 0.95 d"
    by (auto simp: patterns_ok_def split: option.splits)
  have "0 \<le> get_default d app 0.5"
    using d(2) by (rule get_default_nonneg) simp
  then have "0 \<le> min 0.95 (get_default d app 0.5 + 0.1)"
    by (simp add: min_def)
  moreover have "min 0.95 (get_default d app 0.5 + 0.1) \<le> 0.95"
    by (rule min.cobounded1)
  ultimately have "dict_bounded 0.95 (AList.update app (min 0.95 (get_default d app 0.5 + 0.1)) d)"
    using d(2) by (intro dict_bounded_update)
  with ok d show ?thesis
    by (simp add: patterns_ok_def learn_app_def get_dict_def Let_def)
qed

lemma patterns_ok_learn_word: "patterns_ok p \<Longrightarrow> patterns_ok (learn_word w p)"
proof -
  assume ok: "patterns_ok p"
  then obtain d where d: "lp_content p = Some d" "dict_bounded 0.9 d"
    by (auto simp: patterns_ok_def split: option.splits)
  have "0 \<le> get_default d w 0.5"
    using d(2) by (rule get_default_nonneg) simp
  then have "0 \<le> min 0.9 (get_default d w 0.5 + 0.05)"
    by (simp add: min_def)
  moreover have "min 0.9 (get_default d w 0.5 + 0.05) \<le> 0.9"
    by (rule min.cobounded1)
  ultimately have "dict_bounded 0.9 (AList.update w (min 0.9 (get_default d w 0.5 + 0.05)) d)"
    using d(2) by (intro dict_bounded_update)
  with ok d show ?thesis
    by (simp add: patterns_ok_def learn_word_def get_dict_def Let_def)
qed

lemma store_invariant_update:
  "store_invariant lp \<Longrightarrow> patterns_ok p \<Longrightarrow> store_invariant (AList.update cat p lp)"
  using set_update_subset [of cat p lp] by (auto simp: store_invariant_def)

lemma store_invariant_map_entry:
  "store_invariant lp \<Longrightarrow> (\<And>p. patterns_ok p \<Longrightarrow> patterns_ok (f p))
     \<Longrightarrow> store_invariant (AList.map_entry cat f lp)"
  using set_map_entry_subset [of cat f lp] by (fastforce simp: store_invariant_def)

lemma store_invariant_words:
  "store_invariant lp \<Longrightarrow>
   store_invariant
     (foldl (\<lambda>lp word. if length word > 3 then AList.map_entry cat (learn_word word) lp else lp)
        lp ws)"
  by (induction ws arbitrary: lp) (simp_all add: store_invariant_map_entry patterns_ok_learn_word)

lemma store_invariant_learn:
  "store_invariant (learned_patterns c)
     \<Longrightarrow> store_invariant (learned_patterns (learn_from_feedback c feedback))"
  by (simp add: learn_from_feedback_def Let_def store_invariant_words store_invariant_map_entry
        store_invariant_update patterns_ok_learn_app patterns_ok_empty)

lemma store_invariant_reset: "store_invariant (learned_patterns (reset_learned_patterns c))"
  by (simp add: reset_learned_patterns_def store_invariant_empty)

lemma store_invariant_new:
  "loaded_ok loaded \<Longrightarrow> store_invariant (learned_patterns (new_classifier loaded))"
  by (auto simp: new_classifier_def load_learned_patterns_def loaded_ok_def
        store_invariant_update store_invariant_empty split: option.split)

lemma store_invariant_operation:
  "store_invariant (learned_patterns c) \<Longrightarrow> store_invariant (learned_patterns (apply_operation c x))"
  by (cases x)
    (simp_all add: classify_state get_category_stats_state store_invariant_learn store_invariant_reset)

lemma store_invariant_run:
  "store_invariant (learned_patterns c)
     \<Longrightarrow> store_invariant (learned_patterns (run_operations c ops))"
  unfolding run_operations_def
  by (induction ops arbitrary: c) (simp_all add: store_invariant_operation)

subsection \<open>What every operation keeps: the keyword tables and the categories of the store\<close>

lemma keywords_initialized_operation:
  "keywords_initialized c \<Longrightarrow> keywords_initialized (apply_operation c x)"
  by (cases x)
    (simp_all add: classify_state get_category_stats_state keywords_initialized_def
       learn_from_feedback_def reset_learned_patterns_def Let_def)

lemma keywords_initialized_run:
  "keywords_initialized (run_operations (new_classifier loaded) ops)"
proof -
  have "keywords_initialized (new_classifier loaded)"
    by (simp add: keywords_initialized_def new_classifier_def load_learned_patterns_def
          initialize_keywords_def)
  moreover have "keywords_initialized c \<Longrightarrow> keywords_initialized (foldl apply_operation c ops)" for c
    by (induction ops arbitrary: c) (simp_all add: keywords_initialized_operation)
  ultimately show ?thesis
    by (simp add: run_operations_def)
qed

text \<open>The categories of the store, in the order of iteration.\<close>

lemma keys_map_entry: "map fst (AList.map_entry k f al) = map fst al"
  by (induction al) simp_all

lemma keys_update: "k \<in> set (map fst al) \<Longrightarrow> map fst (AList.update k v al) = map fst al"
  by (simp add: update_keys)

lemma keys_words:
  "map fst (foldl (\<lambda>lp word. if length word > 3 then AList.map_entry cat (g word) lp else lp)
      lp ws) = map fst lp"
  by (induction ws arbitrary: lp) (simp_all add: keys_map_entry)

lemma store_keys_new: "map fst (learned_patterns (new_classifier loaded)) = [WORK, PERSONAL, JUNK]"
  by (simp add: new_classifier_def load_learned_patterns_def empty_store_def update_keys
        split: option.split)

lemma store_keys_operation:
  assumes "map fst (learned_patterns c) = [WORK, PERSONAL, JUNK]"
  shows "map fst (learned_patterns (apply_operation c x)) = [WORK, PERSONAL, JUNK]"
proof (cases x)
  case (LearnFromFeedback feedback)
  have "actual_category feedback \<in> set (map fst (learned_patterns c))"
    unfolding assms by (cases "actual_category feedback") simp_all
  then have "map_of (learned_patterns c) (actual_category feedback) \<noteq> None"
    by (simp only: map_of_eq_None_iff set_map not_not)
  then obtain p where "map_of (learned_patterns c) (actual_category feedback) = Some p"
    by blast
  then have "learned_patterns (learn_from_feedback c feedback) =
      foldl (\<lambda>lp word. if length word > 3
               then AList.map_entry (actual_category feedback) (learn_word word) lp else lp)
        (if strip (lower (app_name feedback)) \<noteq> []
         then AList.map_entry (actual_category feedback)
                (learn_app (strip (lower (app_name feedback)))) (learned_patterns c)
         else learned_patterns c)
        (take 5 (findall_words (strip (lower (title feedback @ '' '' @ body feedback)))))"
    by (simp add: learn_from_feedback_def Let_def)
  then show ?thesis
    using assms by (simp add: LearnFromFeedback keys_words keys_map_entry)
qed (simp_all add: assms classify_state get_category_stats_state reset_learned_patterns_def
      empty_store_def)

lemma store_keys_run:
  "map fst (learned_patterns (run_operations (new_classifier loaded) ops)) = [WORK, PERSONAL, JUNK]"
proof -
  have "map fst (learned_patterns c) = [WORK, PERSONAL, JUNK] \<Longrightarrow>
      map fst (learned_patterns (foldl apply_operation c ops)) = [WORK, PERSONAL, JUNK]" for c
    by (induction ops arbitrary: c) (simp_all add: store_keys_operation)
  then show ?thesis
    by (simp add: run_operations_def store_keys_new)
qed

subsection \<open>The learned-pattern lookup\<close>

lemma check_content_Some:
  "check_content cat content d = Some r \<Longrightarrow>
     category r = cat \<and> 0.7 < confidence r \<and> (\<exists>k. (k, confidence r) \<in> set d) \<and>
     startswith (reasoning r) ''Learned from user feedback''"
proof (induction d)
  case Nil
  then show ?case by simp
next
  case (Cons x d)
  obtain k v where x: "x = (k, v)" by (cases x)
  show ?case
  proof (cases "str_in k content \<and> v > 0.7")
    case True
    with Cons.prems x show ?thesis by auto
  next
    case False
    with Cons.prems x have "check_content cat content d = Some r" by auto
    from Cons.IH [OF this] show ?thesis by auto
  qed
qed

lemma check_app_Some:
  "check_app cat app d = Some r \<Longrightarrow>
     category r = cat \<and> 0.7 < confidence r \<and> (app, confidence r) \<in> set d \<and>
     startswith (reasoning r) ''Learned from user feedback''"
  by (auto simp: check_app_def split: option.splits if_splits dest: map_of_SomeD)

lemma check_learned_patterns_Some:
  "check_learned_patterns lp app content = Some r \<Longrightarrow>
     0.7 < confidence r \<and> startswith (reasoning r) ''Learned from user feedback'' \<and>
     (\<exists>p k. (category r, p) \<in> set lp \<and>
        ((k, confidence r) \<in> set (get_dict (lp_apps p)) \<or>
         (k, confidence r) \<in> set (get_dict (lp_content p))))"
proof (induction lp)
  case Nil
  then show ?case by simp
next
  case (Cons x lp)
  obtain cat p where x: "x = (cat, p)" by (cases x)
  show ?case
  proof (cases "check_app cat app (get_dict (lp_apps p))")
    case (Some r')
    with Cons.prems x have "r' = r" by simp
    with Some check_app_Some [of cat app "get_dict (lp_apps p)" r] x show ?thesis
      by auto
  next
    case None
    note no_app = None
    show ?thesis
    proof (cases "check_content cat content (get_dict (lp_content p))")
      case (Some r')
      with Cons.prems x no_app have "r' = r" by simp
      with Some check_content_Some [of cat content "get_dict (lp_content p)" r] x show ?thesis
        by auto
    next
      case None
      with Cons.prems x no_app have "check_learned_patterns lp app content = Some r"
        by simp
      from Cons.IH [OF this] show ?thesis
        by auto
    qed
  qed
qed

lemma learned_confidence_bounds:
  assumes inv: "store_invariant lp"
    and hit: "check_learned_patterns lp app content = Some r"
  shows "0.7 < confidence r \<and> confidence r \<le> 0.95"
proof -
  from check_learned_patterns_Some [OF hit] obtain p k where
    gt: "0.7 < confidence r" and p: "(category r, p) \<in> set lp" and
    k: "(k, confidence r) \<in> set (get_dict (lp_apps p)) \<or>
        (k, confidence r) \<in> set (get_dict (lp_content p))"
    by blast
  from inv p have ok: "patterns_ok p"
    by (auto simp: store_invariant_def)
  from k have "confidence r \<le> 0.95"
  proof
    assume "(k, confidence r) \<in> set (get_dict (lp_apps p))"
    with ok show ?thesis
      by (auto simp: patterns_ok_def get_dict_def dict_bounded_def split: option.splits)
  next
    assume "(k, confidence r) \<in> set (get_dict (lp_content p))"
    with ok have "confidence r \<le> 0.9"
      by (auto simp: patterns_ok_def get_dict_def dict_bounded_def split: option.splits)
    then show ?thesis by simp
  qed
  with gt show ?thesis by simp
qed

subsection \<open>The keyword path\<close>

lemma length_sort_scores: "length (sort_scores xs) = length xs"
  by (simp add: sort_scores_def)

lemma clamp_bounds: "0.5 \<le> min 0.95 (max 0.5 (x::real)) \<and> min 0.95 (max 0.5 x) \<le> 0.95"
  unfolding min_def max_def by auto

text \<open>What \<open>classify\<close> returns when the learned patterns give nothing.\<close>

lemma classify_keyword_path:
  assumes app: "app = strip (lower a)"
    and content: "content = strip (lower (t @ '' '' @ b))"
    and none: "check_learned_patterns (learned_patterns c) app content = None"
    and scores: "scores = sort_scores
           [(WORK, calculate_category_score app content (work_keywords c)),
            (PERSONAL, calculate_category_score app content (personal_keywords c)),
            (JUNK, calculate_category_score app content (junk_keywords c))]"
  shows "fst (classify c a t b) =
           (if fst (snd (scores ! 0)) = 0 then
              \<lparr>category = PERSONAL, confidence = 0.5,
               reasoning = ''No specific patterns matched, defaulting to Personal'',
               matched_keywords = []\<rparr>
            else
              \<lparr>category = fst (scores ! 0),
               confidence = min 0.95 (max 0.5
                  ((fst (snd (scores ! 0)) - fst (snd (scores ! 1))) / max (fst (snd (scores ! 0))) 1.0)),
               reasoning = generate_reasoning (fst (scores ! 0)) (snd (snd (scores ! 0))) app,
               matched_keywords = snd (snd (scores ! 0))\<rparr>)"
proof -
  have len: "length scores = 3"
    by (simp add: scores length_sort_scores)
  obtain bc bs bm where best: "scores ! 0 = (bc, bs, bm)"
    by (cases "scores ! 0") auto
  obtain sw mw where w: "calculate_category_score app content (work_keywords c) = (sw, mw)"
    by (cases "calculate_category_score app content (work_keywords c)") auto
  obtain sp mp where p: "calculate_category_score app content (personal_keywords c) = (sp, mp)"
    by (cases "calculate_category_score app content (personal_keywords c)") auto
  obtain sj mj where j: "calculate_category_score app content (junk_keywords c) = (sj, mj)"
    by (cases "calculate_category_score app content (junk_keywords c)") auto
  have sc: "sort_scores [(WORK, sw, mw), (PERSONAL, sp, mp), (JUNK, sj, mj)] = scores"
    by (simp add: scores w p j)
  have "classify c a t b =
          (case check_learned_patterns (learned_patterns c) app content of
             Some learned_result \<Rightarrow> (learned_result, c)
           | None \<Rightarrow>
            (let (work_score, work_matches) =
                   calculate_category_score app content (work_keywords c);
                 (personal_score, personal_matches) =
                   calculate_category_score app content (personal_keywords c);
                 (junk_score, junk_matches) =
                   calculate_category_score app content (junk_keywords c);
                 scores = sort_scores
                   [(WORK, work_score, work_matches),
                    (PERSONAL, personal_score, personal_matches),
                    (JUNK, junk_score, junk_matches)];
                 (best_category, best_score, best_matches) = scores ! 0;
                 conf =
                   (if length scores > 1 then
                      (let second_best_score = fst (snd (scores ! 1))
                       in min 0.95 (max 0.5 ((best_score - second_best_score) / max best_score 1.0)))
                    else 0.8)
             in if best_score = 0 then
                  (\<lparr>category = PERSONAL, confidence = 0.5,
                    reasoning = ''No specific patterns matched, defaulting to Personal'',
                    matched_keywords = []\<rparr>, c)
                else
                  (\<lparr>category = best_category, confidence = conf,
                    reasoning = generate_reasoning best_category best_matches app,
                    matched_keywords = best_matches\<rparr>, c)))"
    unfolding classify_def app content Let_def ..
  then show ?thesis
    using len best by (simp add: none w p j sc Let_def)
qed

lemma keyword_confidence_bounds:
  assumes "check_learned_patterns (learned_patterns c) (strip (lower a))
             (strip (lower (t @ '' '' @ b))) = None"
  shows "0.5 \<le> confidence (fst (classify c a t b)) \<and> confidence (fst (classify c a t b)) \<le> 0.95"
proof -
  define scores where "scores = sort_scores
           [(WORK, calculate_category_score (strip (lower a)) (strip (lower (t @ '' '' @ b)))
               (work_keywords c)),
            (PERSONAL, calculate_category_score (strip (lower a)) (strip (lower (t @ '' '' @ b)))
               (personal_keywords c)),
            (JUNK, calculate_category_score (strip (lower a)) (strip (lower (t @ '' '' @ b)))
               (junk_keywords c))]"
  note r = classify_keyword_path [OF refl refl assms scores_def]
  show ?thesis
  proof (cases "fst (snd (scores ! 0)) = 0")
    case True
    with r show ?thesis by simp
  next
    case False
    with r have "confidence (fst (classify c a t b)) =
        min 0.95 (max 0.5 ((fst (snd (scores ! 0)) - fst (snd (scores ! 1)))
           / max (fst (snd (scores ! 0))) 1.0))"
      by simp
    then show ?thesis
      using clamp_bounds by presburger
  qed
qed

text \<open>The two scores that the sorted list has in front.\<close>

lemma sort_scores_three:
  "fst (snd (sort_scores [(WORK, w, wm), (PERSONAL, p, pm), (JUNK, j, jm)] ! 0)) = best_of w p j \<and>
   fst (snd (sort_scores [(WORK, w, wm), (PERSONAL, p, pm), (JUNK, j, jm)] ! 1)) = second_of w p j"
  by (auto simp: sort_scores_def best_of_def second_of_def min_def max_def)

lemma sort_scores_three_first:
  "sort_scores [(WORK, w, wm), (PERSONAL, p, pm), (JUNK, j, jm)] ! 0 =
     (if p \<le> w \<and> j \<le> w then (WORK, w, wm)
      else if j \<le> p then (PERSONAL, p, pm) else (JUNK, j, jm))"
  by (auto simp: sort_scores_def)

subsection \<open>Empty input\<close>

lemma strip_lower_empty: "strip (lower []) = []" "strip (lower ([] @ '' '' @ [])) = []"
  by code_simp+

lemma score_empty:
  "calculate_category_score [] [] work_keywords_init = (0, [])"
  "calculate_category_score [] [] personal_keywords_init = (0, [])"
  "calculate_category_score [] [] junk_keywords_init = (0, [])"
  by code_simp+

subsection \<open>Stores without a hit, and stores in two parts\<close>

lemma startswith_append: "startswith (p @ r) p"
  by (induction p) simp_all

lemma str_in_startswith: "startswith s p \<Longrightarrow> str_in p s"
  by (cases s; cases p) simp_all

lemma check_app_None:
  "check_app cat app d = None \<longleftrightarrow>
     \<not> (case map_of d app of None \<Rightarrow> False | Some v \<Rightarrow> v > 0.7)"
  by (simp add: check_app_def split: option.split)

lemma check_content_None:
  "check_content cat content d = None \<longleftrightarrow> \<not> list_ex (\<lambda>(k, v). str_in k content \<and> v > 0.7) d"
proof (induction d)
  case Nil
  show ?case by simp
next
  case (Cons x d)
  obtain k v where x: "x = (k, v)" by (cases x)
  show ?case
    by (cases "str_in k content \<and> v > 0.7") (auto simp: x Cons.IH)
qed

lemma check_learned_patterns_None:
  "check_learned_patterns lp app content = None \<longleftrightarrow>
     (\<forall>(cat, p) \<in> set lp. \<not> has_hit p app content)"
proof (induction lp)
  case Nil
  show ?case by simp
next
  case (Cons x lp)
  obtain cat p where x: "x = (cat, p)" by (cases x)
  have "check_learned_patterns (x # lp) app content = None \<longleftrightarrow>
      check_app cat app (get_dict (lp_apps p)) = None \<and>
      check_content cat content (get_dict (lp_content p)) = None \<and>
      check_learned_patterns lp app content = None"
    by (simp add: x split: option.split)
  then show ?case
    by (simp add: Cons.IH x check_app_None check_content_None has_hit_def)
qed

lemma check_learned_patterns_append:
  "check_learned_patterns (pre @ rest) app content =
     (case check_learned_patterns pre app content of
        Some r \<Rightarrow> Some r
      | None \<Rightarrow> check_learned_patterns rest app content)"
  by (induction pre) (auto split: option.split)

subsection \<open>The scanner and the word runs\<close>

declare word_runs.simps [simp del]

lemma word_runs_skip: "\<not> is_word c \<Longrightarrow> word_runs (c # cs) = word_runs cs"
  by (subst word_runs.simps, subst (2) word_runs.simps) simp

lemma word_runs_Nil: "word_runs [] = []"
  by (subst word_runs.simps) simp

lemma word_runs_start:
  "is_word c \<Longrightarrow>
   word_runs (c # cs) = (c # takeWhile is_word cs) # word_runs (dropWhile is_word cs)"
  by (subst word_runs.simps) simp

lemma tokens_unfold:
  "filter (\<lambda>w. 3 \<le> length w) (word_runs s) =
     (if 3 \<le> length (takeWhile is_word s) then [takeWhile is_word s] else [])
     @ filter (\<lambda>w. 3 \<le> length w) (word_runs (dropWhile is_word s))"
proof (cases s)
  case Nil
  then show ?thesis by (simp add: word_runs_Nil)
next
  case (Cons c cs)
  then show ?thesis
    by (cases "is_word c") (simp_all add: word_runs_start)
qed

lemma findall_scan_runs:
  "findall_scan run s =
     (if 3 \<le> length run + length (takeWhile is_word s)
      then [rev run @ takeWhile is_word s] else [])
     @ filter (\<lambda>w. 3 \<le> length w) (word_runs (dropWhile is_word s))"
proof (induction s arbitrary: run)
  case Nil
  then show ?case by (simp add: word_runs_Nil)
next
  case (Cons c cs)
  show ?case
  proof (cases "is_word c")
    case True
    then show ?thesis by (simp add: Cons.IH)
  next
    case False
    have "findall_scan run (c # cs) =
        (if 3 \<le> length run then [rev run] else []) @ findall_scan [] cs"
      using False by simp
    also have "findall_scan [] cs = filter (\<lambda>w. 3 \<le> length w) (word_runs cs)"
      by (simp add: Cons.IH [of "[]"] tokens_unfold [of cs])
    finally show ?thesis
      using False by (simp add: word_runs_skip)
  qed
qed

lemma findall_words_tokens: "findall_words s = content_tokens s"
  by (simp add: findall_words_def content_tokens_def findall_scan_runs tokens_unfold [of s])

subsection \<open>The writes of \<open>learn_from_feedback\<close>\<close>

lemma learn_app_fields:
  "lp_content (learn_app app p) = lp_content p"
  "lp_apps (learn_app app p) =
     Some (AList.update app (min 0.95 (get_default (get_dict (lp_apps p)) app 0.5 + 0.1))
             (get_dict (lp_apps p)))"
  by (simp_all add: learn_app_def Let_def)

lemma learn_word_fields:
  "lp_apps (learn_word w p) = lp_apps p"
  "lp_content (learn_word w p) = Some (bump_content (get_dict (lp_content p)) w)"
  by (simp_all add: learn_word_def bump_content_def Let_def)

lemma foldl_map_entry:
  "map_of lp cat = Some p \<Longrightarrow>
   map_of (foldl (\<lambda>lp w. if P w then AList.map_entry cat (g w) lp else lp) lp ws) cat =
     Some (foldl (\<lambda>p w. if P w then g w p else p) p ws)"
  by (induction ws arbitrary: lp p) (simp_all add: map_of_map_entry)

lemma foldl_map_entry_other:
  "cat' \<noteq> cat \<Longrightarrow>
   map_of (foldl (\<lambda>lp w. if P w then AList.map_entry cat (g w) lp else lp) lp ws) cat' =
     map_of lp cat'"
  by (induction ws arbitrary: lp) (simp_all add: map_of_map_entry)

lemma learn_words_apps:
  "lp_apps (foldl (\<lambda>p w. if 3 < length w then learn_word w p else p) p ws) = lp_apps p"
  by (induction ws arbitrary: p) (simp_all add: learn_word_fields)

lemma learn_words_content:
  "get_dict (lp_content (foldl (\<lambda>p w. if 3 < length w then learn_word w p else p) p ws)) =
     foldl bump_content (get_dict (lp_content p)) (filter (\<lambda>w. 3 < length w) ws)"
  by (induction ws arbitrary: p) (simp_all add: learn_word_fields get_dict_def)

lemma map_of_bump_content:
  "map_of (bump_content d w) k =
     (if k = w then Some (min 0.9 (get_default d w 0.5 + 0.05)) else map_of d k)"
  by (simp add: bump_content_def update_conv')

lemma foldl_bump_other:
  "w \<notin> set ws \<Longrightarrow> map_of (foldl bump_content d ws) w = map_of d w"
  by (induction ws arbitrary: d) (simp_all add: map_of_bump_content)

lemma foldl_bump_once:
  "count_list ws w = 1 \<Longrightarrow>
   map_of (foldl bump_content d ws) w = Some (min 0.9 (get_default d w 0.5 + 0.05))"
proof (induction ws arbitrary: d)
  case Nil
  then show ?case by simp
next
  case (Cons x ws)
  show ?case
  proof (cases "x = w")
    case True
    with Cons.prems have "w \<notin> set ws"
      by (simp add: count_list_0_iff)
    then show ?thesis
      using True by (simp add: foldl_bump_other map_of_bump_content)
  next
    case False
    with Cons.prems have "count_list ws w = 1" by simp
    from Cons.IH [OF this, of "bump_content d x"] False show ?thesis
      by (simp add: get_default_def map_of_bump_content)
  qed
qed

subsection \<open>Case mapping\<close>

lemma of_char_lower_char:
  "of_char (lower_char c) =
     (if in_range c 65 90 \<or> in_range c 192 214 \<or> in_range c 216 222
      then of_char c + 32 else (of_char c :: nat))"
  by (auto simp: lower_char_def in_range_def)

lemma lower_char_idem: "lower_char (lower_char c) = lower_char c"
proof -
  have "\<not> (in_range (lower_char c) 65 90 \<or> in_range (lower_char c) 192 214
           \<or> in_range (lower_char c) 216 222)"
    unfolding in_range_def of_char_lower_char by (auto simp: in_range_def)
  then show ?thesis
    by (subst lower_char_def) simp
qed

lemma lower_Nil: "lower [] = []"
  by (simp add: lower_def)

lemma lower_Cons: "lower (c # s) = lower_char c # lower s"
  by (simp add: lower_def)

lemma lower_append: "lower (x @ y) = lower x @ lower y"
  by (simp add: lower_def)

lemma lower_idem: "lower (lower s) = lower s"
  by (simp add: lower_def lower_char_idem)

text \<open>
  Apart from the sharp s, the upper-case form of a character is one code point, and a
  character of the model with this code point has the same lower-case form.
\<close>

lemma lower_upper_char:
  assumes "c \<noteq> sharp_s"
  shows "\<exists>n. upper_char c = [n] \<and> (\<forall>x. of_char x = n \<longrightarrow> lower_char x = lower_char c)"
proof -
  have not_ss: "of_char c \<noteq> (223::nat)"
  proof
    assume "of_char c = (223::nat)"
    then have "of_char c = (of_char sharp_s :: nat)"
      by (simp add: sharp_s_def)
    with assms show False by simp
  qed
  have small: "of_char x \<noteq> (924::nat)" "of_char x \<noteq> (376::nat)" for x :: char
    using nat_of_char_less_256 [of x] by linarith+
  show ?thesis
  proof (cases "in_range c 97 122 \<or> in_range c 224 246 \<or> in_range c 248 254")
    case True
    then have u: "upper_char c = [of_char c - 32]"
      by (simp add: upper_char_def)
    have same: "lower_char c = c"
      using True by (auto simp: lower_char_def in_range_def)
    have "lower_char x = c" if x: "of_char x = (of_char c :: nat) - 32" for x
    proof -
      have "of_char (lower_char x) = (of_char c :: nat)"
        unfolding of_char_lower_char using True x by (auto simp: in_range_def)
      then show ?thesis
        by (intro of_char_eqI [where ?'a = nat])
    qed
    with u same show ?thesis by simp
  next
    case False
    then show ?thesis
      using not_ss small by (auto simp: upper_char_def)
  qed
qed

lemma lower_upper:
  "upper s = code_points u \<Longrightarrow> sharp_s \<notin> set s \<Longrightarrow> lower u = lower s"
proof (induction s arbitrary: u)
  case Nil
  then show ?case by (simp add: upper_def code_points_def)
next
  case (Cons c s)
  from Cons.prems(2) have c: "c \<noteq> sharp_s" and s: "sharp_s \<notin> set s" by auto
  from lower_upper_char [OF c] obtain n where
    n: "upper_char c = [n]" and lower_same: "\<And>x. of_char x = n \<Longrightarrow> lower_char x = lower_char c"
    by blast
  from Cons.prems(1) n have "n # upper s = map of_char u"
    by (simp add: upper_def code_points_def)
  then obtain x u' where u: "u = x # u'" and x: "of_char x = n" and rest: "upper s = code_points u'"
    by (cases u) (auto simp: code_points_def)
  from Cons.IH [OF rest s] lower_same [OF x] show ?case
    by (simp add: u lower_Cons)
qed

section \<open>The claims\<close>

text \<open>
  C1. For every input and every store reached from a constructed classifier by any
  sequence of its operations, \<open>classify\<close> returns a confidence in [0, 1] and one of the
  categories Work, Personal and Junk. The constructor may have read patterns written
  earlier from a store with the invariant (\<open>loaded_ok\<close>), or none.
\<close>

theorem classify_result_range:
  assumes "loaded_ok loaded"
  shows "0 \<le> confidence (fst (classify (run_operations (new_classifier loaded) ops) a t b)) \<and>
         confidence (fst (classify (run_operations (new_classifier loaded) ops) a t b)) \<le> 1 \<and>
         category (fst (classify (run_operations (new_classifier loaded) ops) a t b))
           \<in> {WORK, PERSONAL, JUNK}"
proof -
  let ?c = "run_operations (new_classifier loaded) ops"
  have inv: "store_invariant (learned_patterns ?c)"
    using assms by (intro store_invariant_run store_invariant_new)
  have cat: "category (fst (classify ?c a t b)) \<in> {WORK, PERSONAL, JUNK}"
    by (cases "category (fst (classify ?c a t b))") simp_all
  have "0 \<le> confidence (fst (classify ?c a t b)) \<and> confidence (fst (classify ?c a t b)) \<le> 1"
  proof (cases "check_learned_patterns (learned_patterns ?c) (strip (lower a))
                  (strip (lower (t @ '' '' @ b)))")
    case None
    from keyword_confidence_bounds [OF this] show ?thesis by simp
  next
    case (Some r)
    then have "fst (classify ?c a t b) = r"
      by (simp add: classify_def Let_def)
    with learned_confidence_bounds [OF inv Some] show ?thesis by simp
  qed
  with cat show ?thesis by simp
qed

theorem classify_result_range_witness:
  "loaded_ok no_data \<and>
   0 \<le> confidence (fst (classify
          (run_operations (new_classifier no_data)
             [LearnFromFeedback feedback_testapp, LearnFromFeedback feedback_testapp,
              LearnFromFeedback feedback_testapp])
          ''TestApp'' ''Random message'' [])) \<and>
   confidence (fst (classify
          (run_operations (new_classifier no_data)
             [LearnFromFeedback feedback_testapp, LearnFromFeedback feedback_testapp,
              LearnFromFeedback feedback_testapp])
          ''TestApp'' ''Random message'' [])) \<le> 1"
proof -
  have h: "loaded_ok no_data"
    by (simp add: loaded_ok_def no_data_def)
  from classify_result_range [OF h] h show ?thesis by simp
qed

text \<open>
  C2 (amended). Once the store holds a confidence above 0.7 for an app name in the
  \<open>apps\<close> dictionary of a category \<open>C\<close>, every \<open>classify\<close> call whose normalized app name is
  that name returns, for any title and body and whatever the keyword tables say, a result
  whose reasoning contains \<open>Learned from user feedback\<close> and whose category is \<open>C\<close> or a
  category before \<open>C\<close> in the store; when no category before \<open>C\<close> has a qualifying hit (none
  can when \<open>C\<close> is the first one, Work), the result is the one of \<open>C\<close>: category \<open>C\<close>, the
  stored confidence, the app name as the matched keyword.
\<close>

theorem learned_app_override:
  assumes store: "learned_patterns c = pre @ (C, p) # post"
    and held: "map_of (get_dict (lp_apps p)) app = Some v"
    and high: "0.7 < v"
    and norm: "strip (lower a) = app"
  shows "str_in ''Learned from user feedback'' (reasoning (fst (classify c a t b))) \<and>
         category (fst (classify c a t b)) \<in> fst ` set pre \<union> {C} \<and>
         ((\<forall>(C', p') \<in> set pre. \<not> has_hit p' app (strip (lower (t @ '' '' @ b)))) \<longrightarrow>
            fst (classify c a t b) =
              \<lparr>category = C, confidence = v,
               reasoning = ''Learned from user feedback: '' @ app @ arrow @ category_value C,
               matched_keywords = [app]\<rparr>)"
proof -
  define content where "content = strip (lower (t @ '' '' @ b))"
  let ?hit = "\<lparr>category = C, confidence = v,
               reasoning = ''Learned from user feedback: '' @ app @ arrow @ category_value C,
               matched_keywords = [app]\<rparr>"
  have here: "check_learned_patterns ((C, p) # post) app content = Some ?hit"
    using held high by (simp add: check_app_def)
  have split: "check_learned_patterns (learned_patterns c) app content =
      (case check_learned_patterns pre app content of Some r \<Rightarrow> Some r | None \<Rightarrow> Some ?hit)"
    by (simp only: store check_learned_patterns_append here)
  then obtain r where r: "check_learned_patterns (learned_patterns c) app content = Some r"
    by (cases "check_learned_patterns pre app content") auto
  have "classify c a t b =
      (case check_learned_patterns (learned_patterns c) app content of
         Some learned_result \<Rightarrow> (learned_result, c)
       | None \<Rightarrow> classify c a t b)"
    unfolding classify_def content_def norm [symmetric] Let_def
    by (simp split: option.split)
  with r have res: "fst (classify c a t b) = r"
    by simp
  from check_learned_patterns_Some [OF r]
  have "startswith (reasoning r) ''Learned from user feedback''"
    by blast
  then have contains: "str_in ''Learned from user feedback'' (reasoning r)"
    by (rule str_in_startswith)
  have where_from: "category r \<in> fst ` set pre \<union> {C}"
  proof (cases "check_learned_patterns pre app content")
    case None
    with split r show ?thesis by simp
  next
    case (Some r')
    with split r have "r' = r" by simp
    with check_learned_patterns_Some [OF Some] show ?thesis
      by force
  qed
  have "r = ?hit" if "\<forall>(C', p') \<in> set pre. \<not> has_hit p' app content"
  proof -
    from that have "check_learned_patterns pre app content = None"
      by (simp add: check_learned_patterns_None)
    with split r show ?thesis by simp
  qed
  with contains where_from res show ?thesis
    unfolding content_def by blast
qed

theorem learned_app_override_witness:
  "learned_patterns personal_foo_classifier =
     [(WORK, empty_patterns)] @ (PERSONAL, \<lparr>lp_apps = Some [(''foo'', 0.8)], lp_content = Some []\<rparr>)
       # [(JUNK, empty_patterns)] \<and>
   \<not> has_hit empty_patterns ''foo'' (strip (lower (''Meeting'' @ '' '' @ []))) \<and>
   fst (classify personal_foo_classifier ''Foo'' ''Meeting'' []) =
     \<lparr>category = PERSONAL, confidence = 0.8,
      reasoning = ''Learned from user feedback: '' @ ''foo'' @ arrow @ category_value PERSONAL,
      matched_keywords = [''foo'']\<rparr>"
proof -
  have store: "learned_patterns personal_foo_classifier =
     [(WORK, empty_patterns)] @ (PERSONAL, \<lparr>lp_apps = Some [(''foo'', 0.8)], lp_content = Some []\<rparr>)
       # [(JUNK, empty_patterns)]"
    by code_simp
  have held: "map_of (get_dict (lp_apps \<lparr>lp_apps = Some [(''foo'', 0.8)], lp_content = Some []\<rparr>)) ''foo''
      = Some 0.8"
    by (simp add: get_dict_def)
  have norm: "strip (lower ''Foo'') = ''foo''"
    by code_simp
  have free: "\<forall>(C', p') \<in> set [(WORK, empty_patterns)].
      \<not> has_hit p' ''foo'' (strip (lower (''Meeting'' @ '' '' @ [])))"
    by (simp add: has_hit_def empty_patterns_def get_dict_def)
  have nohit: "\<not> has_hit empty_patterns ''foo'' (strip (lower (''Meeting'' @ '' '' @ [])))"
    by (simp add: has_hit_def empty_patterns_def get_dict_def)
  from learned_app_override [OF store held _ norm, of "''Meeting''" "[]"] store free nohit
  show ?thesis by simp
qed

text \<open>
  C2 as stated fails: after three corrections to Work and three to Personal, the Personal
  \<open>apps\<close> dictionary holds \<open>foo\<close> at 0.8, and \<open>classify\<close> still answers Work, the category
  that the lookup meets first.
\<close>

theorem learned_override_counterexample:
  "map_of (learned_patterns relearned_classifier) PERSONAL =
     Some \<lparr>lp_apps = Some [(''foo'', 0.8)], lp_content = Some []\<rparr> \<and>
   (0.7::real) < 0.8 \<and>
   strip (lower ''Foo'') = ''foo'' \<and>
   category (fst (classify relearned_classifier ''Foo'' [] [])) = WORK \<and>
   category (fst (classify relearned_classifier ''Foo'' [] [])) \<noteq> PERSONAL"
  by code_simp

text \<open>
  C3. The claim asks for the reasoning \<open>Classified as Work based on general patterns\<close>
  when the matches of the winning category hold only \<open>domain:\<close> entries. For the app
  \<open>Browser\<close> and the title \<open>company.com\<close> the only match is \<open>domain:company.com\<close>, and
  the reasoning that \<open>classify\<close> returns is \<open>Classified as Work: \<close> with nothing after the
  colon: \<open>_generate_reasoning\<close> takes the fallback only for an empty match list and has
  no case for the domain entries that \<open>_calculate_category_score\<close> records.
\<close>

theorem domain_only_reasoning:
  "fst (classify (new_classifier no_data) ''Browser'' ''company.com'' []) =
     \<lparr>category = WORK, confidence = 0.95, reasoning = ''Classified as Work: '',
      matched_keywords = [''domain:company.com'']\<rparr>"
  by code_simp

text \<open>
  C4. When the learned patterns give nothing and the best of the three scores is
  positive, the confidence is \<open>min(0.95, max(0.5, (best - second) / max(best, 1.0)))\<close>,
  with the largest and the second largest score; when these two are equal it is 0.5.
\<close>

theorem keyword_confidence_formula:
  assumes none: "check_learned_patterns (learned_patterns c) (strip (lower a))
                   (strip (lower (t @ '' '' @ b))) = None"
    and w: "w = fst (calculate_category_score (strip (lower a)) (strip (lower (t @ '' '' @ b)))
                  (work_keywords c))"
    and p: "p = fst (calculate_category_score (strip (lower a)) (strip (lower (t @ '' '' @ b)))
                  (personal_keywords c))"
    and j: "j = fst (calculate_category_score (strip (lower a)) (strip (lower (t @ '' '' @ b)))
                  (junk_keywords c))"
    and pos: "0 < best_of w p j"
  shows "confidence (fst (classify c a t b)) =
           min 0.95 (max 0.5 ((best_of w p j - second_of w p j) / max (best_of w p j) 1.0)) \<and>
         (best_of w p j = second_of w p j \<longrightarrow> confidence (fst (classify c a t b)) = 0.5)"
proof -
  let ?app = "strip (lower a)" and ?content = "strip (lower (t @ '' '' @ b))"
  obtain wm where cw: "calculate_category_score ?app ?content (work_keywords c) = (w, wm)"
    using w by (cases "calculate_category_score ?app ?content (work_keywords c)") simp
  obtain pm where cp: "calculate_category_score ?app ?content (personal_keywords c) = (p, pm)"
    using p by (cases "calculate_category_score ?app ?content (personal_keywords c)") simp
  obtain jm where cj: "calculate_category_score ?app ?content (junk_keywords c) = (j, jm)"
    using j by (cases "calculate_category_score ?app ?content (junk_keywords c)") simp
  let ?scores = "sort_scores [(WORK, w, wm), (PERSONAL, p, pm), (JUNK, j, jm)]"
  have sc: "?scores = sort_scores
           [(WORK, calculate_category_score ?app ?content (work_keywords c)),
            (PERSONAL, calculate_category_score ?app ?content (personal_keywords c)),
            (JUNK, calculate_category_score ?app ?content (junk_keywords c))]"
    by (simp only: cw cp cj)
  have best: "fst (snd (?scores ! 0)) = best_of w p j"
    and second: "fst (snd (?scores ! 1)) = second_of w p j"
    using sort_scores_three [of w wm p pm j jm] by blast+
  from pos best have "fst (snd (?scores ! 0)) \<noteq> 0" by simp
  with classify_keyword_path [OF refl refl none sc] second
  have eq: "confidence (fst (classify c a t b)) =
      min 0.95 (max 0.5 ((best_of w p j - second_of w p j) / max (best_of w p j) 1.0))"
    by (simp add: best second)
  moreover have "best_of w p j = second_of w p j \<Longrightarrow> confidence (fst (classify c a t b)) = 0.5"
    by (simp add: eq)
  ultimately show ?thesis by blast
qed

theorem keyword_confidence_formula_witness:
  "check_learned_patterns (learned_patterns (new_classifier no_data)) (strip (lower []))
     (strip (lower (''Meeting party'' @ '' '' @ []))) = None \<and>
   0 < best_of 1 1 0 \<and> best_of 1 1 0 = second_of 1 1 0 \<and>
   confidence (fst (classify (new_classifier no_data) [] ''Meeting party'' [])) = 0.5"
proof -
  have none: "check_learned_patterns (learned_patterns (new_classifier no_data)) (strip (lower []))
     (strip (lower (''Meeting party'' @ '' '' @ []))) = None"
    by code_simp
  have w: "1 = fst (calculate_category_score (strip (lower []))
      (strip (lower (''Meeting party'' @ '' '' @ []))) (work_keywords (new_classifier no_data)))"
    by code_simp
  have p: "1 = fst (calculate_category_score (strip (lower []))
      (strip (lower (''Meeting party'' @ '' '' @ []))) (personal_keywords (new_classifier no_data)))"
    by code_simp
  have j: "0 = fst (calculate_category_score (strip (lower []))
      (strip (lower (''Meeting party'' @ '' '' @ []))) (junk_keywords (new_classifier no_data)))"
    by code_simp
  have pos: "0 < best_of 1 1 0" and tie: "best_of 1 1 0 = second_of 1 1 0"
    by (simp_all add: best_of_def second_of_def)
  from keyword_confidence_formula [OF none w p j pos] none pos tie show ?thesis by blast
qed

text \<open>
  C5. \<open>learn_from_feedback\<close> changes the store of the actual category only, as follows.
  When the normalized app name is not empty, \<open>apps[app_name]\<close> becomes
  \<open>min(0.95, previous-or-0.5 + 0.1)\<close>; no other app is written. The content tokens are the
  word-character runs of length at least 3 of the normalized title and body; of the
  first five, those longer than 3 are written in turn, each write setting
  \<open>content[token]\<close> to \<open>min(0.90, previous-or-0.5 + 0.05)\<close> (so a token taken once ends
  at this value of its previous confidence); no other token is written.
\<close>

theorem learn_from_feedback_store:
  assumes app: "app = strip (lower (app_name feedback))"
    and content: "content = strip (lower (title feedback @ '' '' @ body feedback))"
    and cat: "cat = actual_category feedback"
    and taken: "taken = filter (\<lambda>w. 3 < length w) (take 5 (content_tokens content))"
    and before: "before = (case map_of (learned_patterns c) cat of
                             None \<Rightarrow> empty_patterns | Some p \<Rightarrow> p)"
  shows "\<exists>after. map_of (learned_patterns (learn_from_feedback c feedback)) cat = Some after \<and>
     (app \<noteq> [] \<longrightarrow>
        map_of (get_dict (lp_apps after)) app =
          Some (min 0.95 (get_default (get_dict (lp_apps before)) app 0.5 + 0.1))) \<and>
     (\<forall>k. k \<noteq> app \<or> app = [] \<longrightarrow>
        map_of (get_dict (lp_apps after)) k = map_of (get_dict (lp_apps before)) k) \<and>
     get_dict (lp_content after) = foldl bump_content (get_dict (lp_content before)) taken \<and>
     (\<forall>w. count_list taken w = 1 \<longrightarrow>
        map_of (get_dict (lp_content after)) w =
          Some (min 0.9 (get_default (get_dict (lp_content before)) w 0.5 + 0.05))) \<and>
     (\<forall>w. w \<notin> set taken \<longrightarrow>
        map_of (get_dict (lp_content after)) w = map_of (get_dict (lp_content before)) w) \<and>
     (\<forall>cat'. cat' \<noteq> cat \<longrightarrow>
        map_of (learned_patterns (learn_from_feedback c feedback)) cat' =
          map_of (learned_patterns c) cat')"
proof -
  define lp1 where "lp1 = (if map_of (learned_patterns c) cat = None
      then AList.update cat empty_patterns (learned_patterns c) else learned_patterns c)"
  define lp2 where "lp2 = (if app \<noteq> [] then AList.map_entry cat (learn_app app) lp1 else lp1)"
  define p2 where "p2 = (if app \<noteq> [] then learn_app app before else before)"
  define words where "words = take 5 (content_tokens content)"
  define after where
    "after = foldl (\<lambda>p w. if 3 < length w then learn_word w p else p) p2 words"
  have result: "learned_patterns (learn_from_feedback c feedback) =
      foldl (\<lambda>lp w. if 3 < length w then AList.map_entry cat (learn_word w) lp else lp) lp2 words"
    unfolding learn_from_feedback_def Let_def lp2_def lp1_def words_def app content cat
      findall_words_tokens
    by simp
  have lp1: "map_of lp1 cat = Some before"
    by (auto simp: lp1_def before update_conv')
  have lp1_other: "map_of lp1 cat' = map_of (learned_patterns c) cat'" if "cat' \<noteq> cat" for cat'
    using that by (simp add: lp1_def update_conv')
  have lp2: "map_of lp2 cat = Some p2"
    by (simp add: lp2_def p2_def map_of_map_entry lp1)
  have lp2_other: "map_of lp2 cat' = map_of (learned_patterns c) cat'" if "cat' \<noteq> cat" for cat'
    using that by (simp add: lp2_def map_of_map_entry lp1_other)
  have found: "map_of (learned_patterns (learn_from_feedback c feedback)) cat = Some after"
    unfolding result after_def by (rule foldl_map_entry [OF lp2])
  have others: "map_of (learned_patterns (learn_from_feedback c feedback)) cat' =
      map_of (learned_patterns c) cat'" if "cat' \<noteq> cat" for cat'
    unfolding result using that by (simp add: foldl_map_entry_other lp2_other)
  have apps: "lp_apps after = lp_apps p2"
    by (simp add: after_def learn_words_apps)
  have app_written: "map_of (get_dict (lp_apps after)) app =
      Some (min 0.95 (get_default (get_dict (lp_apps before)) app 0.5 + 0.1))" if "app \<noteq> []"
    using that by (simp add: apps p2_def learn_app_fields get_dict_def update_conv')
  have app_others: "map_of (get_dict (lp_apps after)) k = map_of (get_dict (lp_apps before)) k"
    if "k \<noteq> app \<or> app = []" for k
    using that by (auto simp: apps p2_def learn_app_fields get_dict_def update_conv')
  have "lp_content p2 = lp_content before"
    by (simp add: p2_def learn_app_fields)
  then have contents: "get_dict (lp_content after) =
      foldl bump_content (get_dict (lp_content before)) taken"
    by (simp add: after_def learn_words_content taken words_def)
  have once: "map_of (get_dict (lp_content after)) w =
      Some (min 0.9 (get_default (get_dict (lp_content before)) w 0.5 + 0.05))"
    if "count_list taken w = 1" for w
    unfolding contents using that by (rule foldl_bump_once)
  have untouched: "map_of (get_dict (lp_content after)) w = map_of (get_dict (lp_content before)) w"
    if "w \<notin> set taken" for w
    unfolding contents using that by (rule foldl_bump_other)
  from found app_written app_others contents once untouched others show ?thesis
    by blast
qed

theorem learn_from_feedback_store_witness:
  "filter (\<lambda>w. 3 < length w) (take 5 (content_tokens (strip (lower (title feedback_tokens @ '' ''
      @ body feedback_tokens))))) = [''special'', ''keyword'', ''unique'', ''pattern''] \<and>
   map_of (get_dict (lp_apps (the (map_of
      (learned_patterns (learn_from_feedback (new_classifier no_data) feedback_tokens)) WORK))))
      ''testapp'' = Some 0.6 \<and>
   map_of (get_dict (lp_content (the (map_of
      (learned_patterns (learn_from_feedback (new_classifier no_data) feedback_tokens)) WORK))))
      ''unique'' = Some 0.55 \<and>
   map_of (get_dict (lp_content (the (map_of
      (learned_patterns (learn_from_feedback (new_classifier no_data) feedback_tokens)) WORK))))
      ''the'' = None \<and>
   map_of (get_dict (lp_content (the (map_of
      (learned_patterns (learn_from_feedback (new_classifier no_data) feedback_tokens)) WORK))))
      ''here'' = None"
proof -
  let ?c = "new_classifier no_data"
  have app: "''testapp'' = strip (lower (app_name feedback_tokens))"
    by code_simp
  have cat: "WORK = actual_category feedback_tokens"
    by (simp add: feedback_tokens_def)
  have taken: "[''special'', ''keyword'', ''unique'', ''pattern''] =
      filter (\<lambda>w. 3 < length w) (take 5 (content_tokens (strip (lower (title feedback_tokens @ '' ''
      @ body feedback_tokens)))))"
    by code_simp
  have before: "empty_patterns = (case map_of (learned_patterns ?c) WORK of
      None \<Rightarrow> empty_patterns | Some p \<Rightarrow> p)"
    by code_simp
  from learn_from_feedback_store [OF app refl cat taken before]
  obtain after where
    after: "map_of (learned_patterns (learn_from_feedback ?c feedback_tokens)) WORK = Some after"
    and apps: "map_of (get_dict (lp_apps after)) ''testapp'' =
          Some (min 0.95 (get_default (get_dict (lp_apps empty_patterns)) ''testapp'' 0.5 + 0.1))"
    and once: "\<forall>w. count_list [''special'', ''keyword'', ''unique'', ''pattern''] w = 1 \<longrightarrow>
        map_of (get_dict (lp_content after)) w =
          Some (min 0.9 (get_default (get_dict (lp_content empty_patterns)) w 0.5 + 0.05))"
    and untouched: "\<forall>w. w \<notin> set [''special'', ''keyword'', ''unique'', ''pattern''] \<longrightarrow>
        map_of (get_dict (lp_content after)) w = map_of (get_dict (lp_content empty_patterns)) w"
    by auto
  have "map_of (get_dict (lp_apps after)) ''testapp'' = Some 0.6"
    using apps by (simp add: empty_patterns_def get_dict_def get_default_def)
  moreover have "map_of (get_dict (lp_content after)) ''unique'' = Some 0.55"
    using once [rule_format, of "''unique''"]
    by (simp add: empty_patterns_def get_dict_def get_default_def)
  moreover have "map_of (get_dict (lp_content after)) ''the'' = None"
    using untouched [rule_format, of "''the''"]
    by (simp add: empty_patterns_def get_dict_def)
  moreover have "map_of (get_dict (lp_content after)) ''here'' = None"
    using untouched [rule_format, of "''here''"]
    by (simp add: empty_patterns_def get_dict_def)
  ultimately show ?thesis
    using after taken by simp
qed

text \<open>
  C6. With the keyword tables of the constructor and no hit in the learned patterns,
  \<open>classify\<close> on three empty strings returns Personal with confidence 0.5, the reasoning
  \<open>No specific patterns matched, defaulting to Personal\<close> and no matched keywords.
\<close>

theorem classify_empty_input:
  assumes kw: "keywords_initialized c"
    and none: "check_learned_patterns (learned_patterns c) [] [] = None"
  shows "fst (classify c [] [] []) =
           \<lparr>category = PERSONAL, confidence = 0.5,
            reasoning = ''No specific patterns matched, defaulting to Personal'',
            matched_keywords = []\<rparr>"
proof -
  from kw have tables: "work_keywords c = work_keywords_init"
      "personal_keywords c = personal_keywords_init" "junk_keywords c = junk_keywords_init"
    by (simp_all add: keywords_initialized_def)
  have "fst (snd (sort_scores [(WORK, 0, []), (PERSONAL, 0, []), (JUNK, 0, [])] ! 0)) = best_of 0 0 0"
    using sort_scores_three [of 0 "[]" 0 "[]" 0 "[]"] by blast
  then have zero: "fst (snd (sort_scores [(WORK, 0, []), (PERSONAL, 0, []), (JUNK, 0, [])] ! 0)) = 0"
    by (simp add: best_of_def)
  show ?thesis
    using classify_keyword_path [OF strip_lower_empty(1) [symmetric] strip_lower_empty(2) [symmetric]
        none refl] zero
    by (simp add: tables score_empty)
qed

theorem classify_empty_input_witness:
  "keywords_initialized (new_classifier no_data) \<and>
   check_learned_patterns (learned_patterns (new_classifier no_data)) [] [] = None \<and>
   fst (classify (new_classifier no_data) [] [] []) =
     \<lparr>category = PERSONAL, confidence = 0.5,
      reasoning = ''No specific patterns matched, defaulting to Personal'',
      matched_keywords = []\<rparr>"
proof -
  have kw: "keywords_initialized (new_classifier no_data)"
    by (simp add: keywords_initialized_def new_classifier_def load_learned_patterns_def
          initialize_keywords_def)
  have none: "check_learned_patterns (learned_patterns (new_classifier no_data)) [] [] = None"
    by code_simp
  from classify_empty_input [OF kw none] kw none show ?thesis by simp
qed

text \<open>
  C7. The invariant of the learned-pattern store (every category has both dictionaries,
  every confidence is at least 0 and at most 0.95 for apps, 0.90 for content) holds for a
  new classifier, is preserved by \<open>learn_from_feedback\<close>, is established by
  \<open>reset_learned_patterns\<close>, and \<open>classify\<close> and \<open>get_category_stats\<close> leave the object
  unchanged.
\<close>

theorem store_invariant_holds:
  "store_invariant (learned_patterns (new_classifier no_data)) \<and>
   (loaded_ok loaded \<longrightarrow> store_invariant (learned_patterns (new_classifier loaded))) \<and>
   (store_invariant (learned_patterns c) \<longrightarrow>
      store_invariant (learned_patterns (learn_from_feedback c feedback)) \<and>
      store_invariant (learned_patterns (snd (classify c a t b))) \<and>
      store_invariant (learned_patterns (snd (get_category_stats c)))) \<and>
   store_invariant (learned_patterns (reset_learned_patterns c)) \<and>
   snd (classify c a t b) = c \<and>
   snd (get_category_stats c) = c"
proof -
  have "loaded_ok no_data"
    by (simp add: loaded_ok_def no_data_def)
  then have "store_invariant (learned_patterns (new_classifier no_data))"
    by (rule store_invariant_new)
  then show ?thesis
    by (simp add: store_invariant_new store_invariant_learn store_invariant_reset
          classify_state get_category_stats_state)
qed

theorem store_invariant_holds_witness:
  "store_invariant (learned_patterns (new_classifier no_data)) \<and>
   store_invariant (learned_patterns (learn_from_feedback (new_classifier no_data) feedback_testapp)) \<and>
   store_invariant (learned_patterns
     (reset_learned_patterns (learn_from_feedback (new_classifier no_data) feedback_testapp)))"
  using store_invariant_holds [of no_data "new_classifier no_data" feedback_testapp "[]" "[]" "[]"]
    store_invariant_holds [of no_data "learn_from_feedback (new_classifier no_data) feedback_testapp"
      feedback_testapp "[]" "[]" "[]"]
  by simp

text \<open>
  C8 (amended). For every app name, title and body whose upper-case form lower-cases
  to the lower-case form of the input, \<open>classify\<close> on the upper-cased inputs returns the
  same result, so the same category and the same confidence, as on the lower-cased
  inputs (and as on the inputs themselves). Here \<open>A\<close>, \<open>T\<close> and \<open>B\<close> are the upper-cased
  inputs. Lemma \<open>lower_upper\<close> shows that the condition holds whenever the input has no
  sharp s, so for every ASCII input.
\<close>

theorem classify_case_insensitive:
  assumes "lower A = lower a" and "lower T = lower t" and "lower B = lower b"
  shows "fst (classify c A T B) = fst (classify c (lower a) (lower t) (lower b)) \<and>
         category (fst (classify c A T B)) =
           category (fst (classify c (lower a) (lower t) (lower b))) \<and>
         confidence (fst (classify c A T B)) =
           confidence (fst (classify c (lower a) (lower t) (lower b))) \<and>
         fst (classify c A T B) = fst (classify c a t b)"
proof -
  have "classify c A T B = classify c (lower a) (lower t) (lower b)"
    by (simp add: classify_def lower_append lower_Cons lower_idem assms)
  moreover have "classify c A T B = classify c a t b"
    by (simp add: classify_def lower_append lower_Cons assms)
  ultimately show ?thesis by simp
qed

theorem classify_case_insensitive_witness:
  "upper ''Slack'' = code_points ''SLACK'' \<and>
   upper ''Meeting Reminder'' = code_points ''MEETING REMINDER'' \<and>
   upper ''urgent'' = code_points ''URGENT'' \<and>
   lower ''SLACK'' = lower ''Slack'' \<and>
   lower ''MEETING REMINDER'' = lower ''Meeting Reminder'' \<and>
   lower ''URGENT'' = lower ''urgent'' \<and>
   fst (classify (new_classifier no_data) ''SLACK'' ''MEETING REMINDER'' ''URGENT'') =
     fst (classify (new_classifier no_data) (lower ''Slack'') (lower ''Meeting Reminder'')
            (lower ''urgent''))"
proof -
  have up: "upper ''Slack'' = code_points ''SLACK''"
    "upper ''Meeting Reminder'' = code_points ''MEETING REMINDER''"
    "upper ''urgent'' = code_points ''URGENT''"
    by code_simp+
  have a: "lower ''SLACK'' = lower ''Slack''"
    and t: "lower ''MEETING REMINDER'' = lower ''Meeting Reminder''"
    and b: "lower ''URGENT'' = lower ''urgent''"
    by code_simp+
  from classify_case_insensitive [OF a t b] up a t b show ?thesis by blast
qed

text \<open>
  C8 as stated fails on the sharp s, whose upper-case form is \<open>SS\<close>: the title
  \<open>busine\<close> followed by U+00DF upper-cases to \<open>BUSINESS\<close>, which holds the Work keyword
  \<open>business\<close>, and lower-cases to itself, which holds no keyword.
\<close>

theorem case_insensitive_counterexample:
  "upper (''busine'' @ [sharp_s]) = code_points ''BUSINESS'' \<and>
   category (fst (classify (new_classifier no_data) [] ''BUSINESS'' [])) = WORK \<and>
   confidence (fst (classify (new_classifier no_data) [] ''BUSINESS'' [])) = 0.95 \<and>
   category (fst (classify (new_classifier no_data) [] (lower (''busine'' @ [sharp_s])) []))
     = PERSONAL \<and>
   confidence (fst (classify (new_classifier no_data) [] (lower (''busine'' @ [sharp_s])) []))
     = 0.5"
  by code_simp

text \<open>
  C9. \<open>classify\<close> leaves the object as it was, the learned patterns and the three
  keyword tables included, and a second call with the same arguments returns the same
  result.
\<close>

theorem classify_read_only:
  "snd (classify c a t b) = c \<and>
   learned_patterns (snd (classify c a t b)) = learned_patterns c \<and>
   work_keywords (snd (classify c a t b)) = work_keywords c \<and>
   personal_keywords (snd (classify c a t b)) = personal_keywords c \<and>
   junk_keywords (snd (classify c a t b)) = junk_keywords c \<and>
   fst (classify (snd (classify c a t b)) a t b) = fst (classify c a t b)"
  by (simp add: classify_state)

text \<open>
  C10. The object that \<open>learn_from_feedback\<close> leaves depends only on the app name, the
  title, the body and the actual category of the feedback: two feedback events that agree
  on these, whatever their predicted categories and timestamps, leave the same state.
\<close>

theorem learn_from_feedback_inputs:
  assumes "app_name f1 = app_name f2" and "title f1 = title f2" and "body f1 = body f2"
    and "actual_category f1 = actual_category f2"
  shows "learn_from_feedback c f1 = learn_from_feedback c f2"
  by (simp add: learn_from_feedback_def assms)

theorem learn_from_feedback_inputs_witness:
  "learn_from_feedback (new_classifier no_data)
     \<lparr>app_name = ''TestApp'', title = ''Special keyword'', body = ''unique pattern'',
      predicted_category = PERSONAL, actual_category = WORK, timestamp = 1\<rparr> =
   learn_from_feedback (new_classifier no_data)
     \<lparr>app_name = ''TestApp'', title = ''Special keyword'', body = ''unique pattern'',
      predicted_category = JUNK, actual_category = WORK, timestamp = 2\<rparr>"
  by (rule learn_from_feedback_inputs) simp_all

end
